theory Spec2Isabelle
  imports Main "HOL-Library.Word"
begin

unbundle bit_operations_syntax

section \<open>Memory and failure model\<close>

text \<open>
  The C sources work on raw byte buffers. A buffer is a list of bytes whose length is the
  extent of the object; an access outside that extent is undefined behaviour in C and is
  the value \<open>Inl Out_of_bounds\<close> here. A violated \<open>ASSERT\<close> is \<open>Inl Assertion_failed\<close>, a call
  through a null function pointer is \<open>Inl Null_call\<close>.
\<close>

type_synonym byte = "8 word"

datatype fault = Out_of_bounds | Assertion_failed | Null_call

definition and_then :: "fault + 'a \<Rightarrow> ('a \<Rightarrow> fault + 'b) \<Rightarrow> fault + 'b" where
  "and_then r f = (case r of Inl e \<Rightarrow> Inl e | Inr x \<Rightarrow> f x)"

text \<open>\<open>m[i]\<close> as an rvalue.\<close>

definition rd :: "byte list \<Rightarrow> nat \<Rightarrow> fault + byte" where
  "rd m i = (if i < length m then Inr (m ! i) else Inl Out_of_bounds)"

text \<open>\<open>m[i] = v\<close>.\<close>

definition wr :: "byte list \<Rightarrow> nat \<Rightarrow> byte \<Rightarrow> fault + byte list" where
  "wr m i v = (if i < length m then Inr (m[i := v]) else Inl Out_of_bounds)"

text \<open>\<open>memcpy(dst + doff, src + soff, n)\<close>: the new contents of \<open>dst\<close>.\<close>

definition memcpy :: "byte list \<Rightarrow> nat \<Rightarrow> byte list \<Rightarrow> nat \<Rightarrow> nat \<Rightarrow> fault + byte list" where
  "memcpy dst doff src soff n =
     (if soff + n \<le> length src \<and> doff + n \<le> length dst
      then Inr (take doff dst @ take n (drop soff src) @ drop (doff + n) dst)
      else Inl Out_of_bounds)"

text \<open>\<open>memset(dst, v, n)\<close>: the new contents of \<open>dst\<close>.\<close>

definition memset :: "byte list \<Rightarrow> byte \<Rightarrow> nat \<Rightarrow> fault + byte list" where
  "memset dst v n =
     (if n \<le> length dst then Inr (replicate n v @ drop n dst) else Inl Out_of_bounds)"

text \<open>
  \<open>strlen(s)\<close> on a character array \<open>s\<close>: the number of bytes before the first NUL. An
  array without a NUL makes \<open>strlen\<close> run past its end.
\<close>

definition strlen :: "byte list \<Rightarrow> fault + nat" where
  "strlen s = (if 0 \<in> set s then Inr (length (takeWhile (\<lambda>c. c \<noteq> 0) s)) else Inl Out_of_bounds)"

text \<open>
  \<open>ntohs(*(uint16_t * )(m + i))\<close> and \<open>*(uint16_t * )(m + i) = htons(p)\<close>: the two bytes at
  \<open>i\<close> and \<open>i + 1\<close> hold the port in network byte order, high byte first.
\<close>

definition ntohs_at :: "byte list \<Rightarrow> nat \<Rightarrow> fault + 16 word" where
  "ntohs_at m i =
     and_then (rd m i) (\<lambda>hi.
     and_then (rd m (i + 1)) (\<lambda>lo.
       Inr (push_bit 8 (ucast hi) OR ucast lo)))"

definition htons_at :: "byte list \<Rightarrow> nat \<Rightarrow> 16 word \<Rightarrow> fault + byte list" where
  "htons_at m i p =
     and_then (wr m i (ucast (drop_bit 8 p))) (\<lambda>m1.
       wr m1 (i + 1) (ucast p))"

section \<open>The target address codec (sockaddr_universal.c)\<close>

text \<open>
  The header \<open>sockaddr_universal.h\<close>, which declares \<open>enum SOCKS5_ADDRTYPE\<close> and
  \<open>struct socks5_address\<close>, is not among the sources. What the functions take from it is a
  parameter: the four enumerators and the size of the \<open>domainname\<close> array of the union.
\<close>

record sockaddr_universal_h =
  SOCKS5_ADDRTYPE_INVALID :: int
  SOCKS5_ADDRTYPE_IPV4 :: int
  SOCKS5_ADDRTYPE_DOMAINNAME :: int
  SOCKS5_ADDRTYPE_IPV6 :: int
  sizeof_domainname :: nat

text \<open>\<open>sizeof(struct in_addr)\<close> and \<open>sizeof(struct in6_addr)\<close> (POSIX).\<close>

definition sizeof_in_addr :: nat where
  "sizeof_in_addr = 4"

definition sizeof_in6_addr :: nat where
  "sizeof_in6_addr = 16"

text \<open>
  \<open>struct socks5_address\<close>. The field \<open>addr\<close> is a union of \<open>ipv4\<close>, \<open>ipv6\<close> and
  \<open>domainname\<close>, which all start at its first byte: it is kept as its storage, and the
  three members are the prefixes of that storage. \<open>addr_type\<close> is the enum as the integer
  it is in C.
\<close>

record socks5_address =
  addr :: "byte list"
  port :: "16 word"
  addr_type :: int

definition sizeof_addr :: "sockaddr_universal_h \<Rightarrow> nat" where
  "sizeof_addr h = max sizeof_in6_addr (sizeof_domainname h)"

definition domainname :: "sockaddr_universal_h \<Rightarrow> socks5_address \<Rightarrow> byte list" where
  "domainname h a = take (sizeof_domainname h) (addr a)"

text \<open>The last two statements of \<open>socks5_address_parse\<close>, shared by the three cases.\<close>

definition parse_port ::
  "byte list \<Rightarrow> nat \<Rightarrow> socks5_address \<Rightarrow> fault + (bool \<times> socks5_address option)" where
  "parse_port d offset a =
     and_then (ntohs_at d offset) (\<lambda>p. Inr (True, Some (a\<lparr>port := p\<rparr>)))"

text \<open>
  \<open>socks5_address_parse(data, len, addr)\<close>. A null pointer is \<open>None\<close>. The result is the
  returned boolean and the object behind \<open>addr\<close> after the call.
\<close>

definition socks5_address_parse ::
  "sockaddr_universal_h \<Rightarrow> byte list option \<Rightarrow> nat \<Rightarrow> socks5_address option
     \<Rightarrow> fault + (bool \<times> socks5_address option)" where
  "socks5_address_parse h data len addr_p =
     (case data of
        None \<Rightarrow> Inr (False, addr_p)
      | Some d \<Rightarrow>
          if len = 0 then Inr (False, addr_p)
          else (case addr_p of
             None \<Rightarrow> Inr (False, addr_p)
           | Some a \<Rightarrow>
               and_then (rd d 0) (\<lambda>tag.
                 if uint tag = SOCKS5_ADDRTYPE_IPV4 h then
                   (let addr_size = sizeof_in_addr in
                    if len < 1 + addr_size + 2 then Inr (False, Some a)
                    else
                      and_then (memcpy (addr a) 0 d 1 addr_size) (\<lambda>u.
                        parse_port d (1 + addr_size)
                          (a\<lparr>addr_type := SOCKS5_ADDRTYPE_IPV4 h, addr := u\<rparr>)))
                 else if uint tag = SOCKS5_ADDRTYPE_DOMAINNAME h then
                   and_then (rd d 1) (\<lambda>n.
                     let addr_size = unat n in
                     if len < 1 + 1 + addr_size + 2 then Inr (False, Some a)
                     else
                       and_then (memset (addr a) 0 (sizeof_domainname h)) (\<lambda>z.
                       and_then (memcpy z 0 d 2 addr_size) (\<lambda>u.
                         parse_port d (2 + addr_size)
                           (a\<lparr>addr_type := SOCKS5_ADDRTYPE_DOMAINNAME h, addr := u\<rparr>))))
                 else if uint tag = SOCKS5_ADDRTYPE_IPV6 h then
                   (let addr_size = sizeof_in6_addr in
                    if len < 1 + addr_size + 2 then Inr (False, Some a)
                    else
                      and_then (memcpy (addr a) 0 d 1 addr_size) (\<lambda>u.
                        parse_port d (1 + addr_size)
                          (a\<lparr>addr_type := SOCKS5_ADDRTYPE_IPV6 h, addr := u\<rparr>)))
                 else Inr (False, Some (a\<lparr>addr_type := SOCKS5_ADDRTYPE_INVALID h\<rparr>)))))"

text \<open>\<open>socks5_address_size(addr)\<close>.\<close>

definition socks5_address_size ::
  "sockaddr_universal_h \<Rightarrow> socks5_address option \<Rightarrow> fault + nat" where
  "socks5_address_size h addr_p =
     (case addr_p of
        None \<Rightarrow> Inr 0
      | Some a \<Rightarrow>
          if addr_type a = SOCKS5_ADDRTYPE_IPV4 h then Inr (1 + sizeof_in_addr + 2)
          else if addr_type a = SOCKS5_ADDRTYPE_DOMAINNAME h then
            and_then (strlen (domainname h a)) (\<lambda>n. Inr (1 + 1 + n + 2))
          else if addr_type a = SOCKS5_ADDRTYPE_IPV6 h then Inr (1 + sizeof_in6_addr + 2)
          else Inr 0)"

text \<open>
  \<open>socks5_address_binary(addr, buffer, size)\<close>. The result is whether the returned pointer
  is \<open>buffer\<close> (\<open>True\<close>) or \<open>NULL\<close> (\<open>False\<close>), and the contents of \<open>buffer\<close> after the
  call.
\<close>

definition socks5_address_binary ::
  "sockaddr_universal_h \<Rightarrow> socks5_address option \<Rightarrow> byte list option \<Rightarrow> nat
     \<Rightarrow> fault + (bool \<times> byte list option)" where
  "socks5_address_binary h addr_p buffer sz =
     (case addr_p of
        None \<Rightarrow> Inr (False, buffer)
      | Some a \<Rightarrow>
          (case buffer of
             None \<Rightarrow> Inr (False, buffer)
           | Some b \<Rightarrow>
               if sz = 0 then Inr (False, buffer)
               else
                 and_then (socks5_address_size h (Some a)) (\<lambda>need.
                   if sz < need then Inr (False, Some b)
                   else
                     and_then (wr b 0 (word_of_int (addr_type a))) (\<lambda>b1.
                       if addr_type a = SOCKS5_ADDRTYPE_IPV4 h then
                         and_then (memcpy b1 1 (addr a) 0 sizeof_in_addr) (\<lambda>b2.
                         and_then (htons_at b2 (1 + sizeof_in_addr) (port a)) (\<lambda>b3.
                           Inr (True, Some b3)))
                       else if addr_type a = SOCKS5_ADDRTYPE_DOMAINNAME h then
                         and_then (strlen (domainname h a)) (\<lambda>addr_size.
                         and_then (wr b1 1 (word_of_nat addr_size)) (\<lambda>b2.
                         and_then (memcpy b2 2 (domainname h a) 0 addr_size) (\<lambda>b3.
                         and_then (htons_at b3 (2 + addr_size) (port a)) (\<lambda>b4.
                           Inr (True, Some b4)))))
                       else if addr_type a = SOCKS5_ADDRTYPE_IPV6 h then
                         and_then (memcpy b1 1 (addr a) 0 sizeof_in6_addr) (\<lambda>b2.
                         and_then (htons_at b2 (1 + sizeof_in6_addr) (port a)) (\<lambda>b3.
                           Inr (True, Some b3)))
                       else Inr (False, Some b1)))))"

text \<open>
  The enumerators of the SOCKS5 wire format (RFC 1928) with a 256-byte name array: the
  header instance at which the general theorems are exercised and the spec's byte
  scenarios are replayed.
\<close>

definition socks5_h :: sockaddr_universal_h where
  "socks5_h = \<lparr>SOCKS5_ADDRTYPE_INVALID = 0, SOCKS5_ADDRTYPE_IPV4 = 1,
     SOCKS5_ADDRTYPE_DOMAINNAME = 3, SOCKS5_ADDRTYPE_IPV6 = 4, sizeof_domainname = 256\<rparr>"


subsection \<open>What the codec is checked against\<close>

text \<open>
  The facts about the header that the codec relies on: the three enumerators it switches
  on are distinct (C refuses duplicate case labels) and fit the one-byte kind tag, and the
  name array holds at most 256 bytes, so that every NUL-terminated name in it has a length
  that fits the one-byte length prefix.
\<close>

definition header_ok :: "sockaddr_universal_h \<Rightarrow> bool" where
  "header_ok h \<longleftrightarrow>
     distinct [SOCKS5_ADDRTYPE_IPV4 h, SOCKS5_ADDRTYPE_DOMAINNAME h, SOCKS5_ADDRTYPE_IPV6 h]
     \<and> 0 \<le> SOCKS5_ADDRTYPE_IPV4 h \<and> SOCKS5_ADDRTYPE_IPV4 h < 256
     \<and> 0 \<le> SOCKS5_ADDRTYPE_DOMAINNAME h \<and> SOCKS5_ADDRTYPE_DOMAINNAME h < 256
     \<and> 0 \<le> SOCKS5_ADDRTYPE_IPV6 h \<and> SOCKS5_ADDRTYPE_IPV6 h < 256
     \<and> 0 < sizeof_domainname h \<and> sizeof_domainname h \<le> 256"

text \<open>
  A valid target address: an object of the struct's size whose kind is IPv4, IPv6, or a
  domain name that ends (with its NUL) inside the name array.
\<close>

definition valid_address :: "sockaddr_universal_h \<Rightarrow> socks5_address \<Rightarrow> bool" where
  "valid_address h a \<longleftrightarrow>
     length (addr a) = sizeof_addr h
     \<and> (addr_type a = SOCKS5_ADDRTYPE_IPV4 h
        \<or> addr_type a = SOCKS5_ADDRTYPE_IPV6 h
        \<or> (addr_type a = SOCKS5_ADDRTYPE_DOMAINNAME h \<and> 0 \<in> set (domainname h a)))"

text \<open>
  The payload of an address: the member of the union that its kind selects, the name
  being the C string in \<open>domainname\<close>.
\<close>

definition payload :: "sockaddr_universal_h \<Rightarrow> socks5_address \<Rightarrow> byte list" where
  "payload h a =
     (if addr_type a = SOCKS5_ADDRTYPE_IPV4 h then take sizeof_in_addr (addr a)
      else if addr_type a = SOCKS5_ADDRTYPE_DOMAINNAME h
        then takeWhile (\<lambda>c. c \<noteq> 0) (domainname h a)
      else if addr_type a = SOCKS5_ADDRTYPE_IPV6 h then take sizeof_in6_addr (addr a)
      else [])"

text \<open>
  The wire format in the spec's words, \<open>[1-byte kind][payload][2-byte port, big-endian]\<close>
  with the payload of a domain name prefixed by its one-byte length. It is what the
  output of \<open>socks5_address_binary\<close> is compared with.
\<close>

definition wire_format :: "sockaddr_universal_h \<Rightarrow> socks5_address \<Rightarrow> byte list" where
  "wire_format h a =
     [word_of_int (addr_type a)]
     @ (if addr_type a = SOCKS5_ADDRTYPE_DOMAINNAME h
        then word_of_nat (length (payload h a)) # payload h a
        else payload h a)
     @ [ucast (drop_bit 8 (port a)), ucast (port a)]"

text \<open>The addresses of the spec's two scenarios, and an output object to parse into.\<close>

definition ipv4_1_2_3_4_port_80 :: socks5_address where
  "ipv4_1_2_3_4_port_80 = \<lparr>addr = [1, 2, 3, 4] @ replicate 252 0, port = 80, addr_type = 1\<rparr>"

definition example_com_port_443 :: socks5_address where
  "example_com_port_443 =
     \<lparr>addr = [0x65, 0x78, 0x61, 0x6D, 0x70, 0x6C, 0x65, 0x2E, 0x63, 0x6F, 0x6D]
              @ replicate 245 0,
      port = 443, addr_type = 3\<rparr>"

definition blank_address :: socks5_address where
  "blank_address = \<lparr>addr = replicate 256 0, port = 0, addr_type = 1\<rparr>"

section \<open>The tunnel (client/tunnel.c)\<close>

subsection \<open>Data\<close>

text \<open>
  \<open>tunnel.h\<close> is not among the sources; the fields and enumerators below are the ones
  \<open>tunnel.c\<close> uses. \<open>socket_stop\<close>, \<open>socket_busy\<close>, \<open>socket_done\<close> and \<open>socket_dead\<close>
  are the spec's Idle, InProgress, Completed and Closed.
\<close>

datatype socket_state = socket_stop | socket_busy | socket_done | socket_dead

text \<open>A \<open>struct socket_ctx *c\<close> is one of the two sockets of its tunnel.\<close>

datatype which = Incoming | Outgoing

text \<open>The two libuv handles of a socket: \<open>c->handle\<close> and \<open>c->timer_handle\<close>.\<close>

datatype uv_handle = Handle | Timer_handle

text \<open>
  Address families, as far as \<open>tunnel.c\<close> tells them apart, and the socket address
  \<open>c->t.addr\<close> (a \<open>union sockaddr_universal\<close>) with the family it starts with.
\<close>

datatype address_family = AF_UNSPEC | AF_INET | AF_INET6 | AF_OTHER

record sockaddr =
  sa_family :: address_family
  sa_data :: "byte list"

record addrinfo =
  ai_family :: address_family
  ai_addr :: sockaddr

record socket_ctx =
  rdstate :: socket_state
  wrstate :: socket_state
  result :: int
  idle_timeout :: nat
  t_addr :: sockaddr

text \<open>
  Everything that leaves \<open>tunnel.c\<close>: a request to libuv, a call of one of the
  collaborator's hooks, an allocation or a \<open>free\<close>. The tunnel carries the list of them in
  the order they happen. A hook called last in a function is recorded and nothing more:
  what the collaborator does next is a later call of an operation below.
\<close>

datatype effect =
    Uv_timer_init which
  | Uv_tcp_init which
  | Uv_accept
  | Uv_cancel
  | Uv_close which uv_handle
  | Uv_timer_start which nat
  | Uv_timer_stop which
  | Uv_read_start which
  | Uv_read_stop which
  | Uv_write which nat
  | Uv_tcp_connect which
  | Uv_getaddrinfo which string
  | Uv_freeaddrinfo
  | Calloc_write_req
  | Free_write_req
  | Free_buf which
  | Free_socket which
  | Free_tunnel
  | Call_tunnel_dying
  | Call_tunnel_timeout_expire_done which
  | Call_tunnel_outgoing_connected_done which
  | Call_tunnel_read_done which
  | Call_tunnel_getaddrinfo_done which
  | Call_tunnel_write_done which
  | Call_tunnel_is_on_the_fly

text \<open>
  \<open>struct tunnel_ctx\<close>. A hook field says whether the function pointer is set;
  \<open>tunnel_is_on_the_fly\<close>, which returns a value, is \<open>None\<close> when unset and otherwise the
  answer the collaborator's predicate gives for this tunnel. The last field, \<open>effects\<close>, is
  not in the struct: it is the list described above. The read buffer of a socket and
  \<open>socket_alloc_cb\<close>, which only resizes it, are left out.
\<close>

record tunnel_ctx =
  incoming :: socket_ctx
  outgoing :: socket_ctx
  ref_count :: int
  terminated :: bool
  getaddrinfo_pending :: bool
  tunnel_dying :: bool
  tunnel_timeout_expire_done :: bool
  tunnel_outgoing_connected_done :: bool
  tunnel_read_done :: bool
  tunnel_getaddrinfo_done :: bool
  tunnel_write_done :: bool
  tunnel_is_on_the_fly :: "bool option"
  effects :: "effect list"

text \<open>libuv's error codes (\<open>uv.h\<close>, as on Linux): negated \<open>errno\<close> values and \<open>UV_EOF\<close>.\<close>

definition UV_ECANCELED :: int where
  "UV_ECANCELED = - 125"

definition UV_ECONNREFUSED :: int where
  "UV_ECONNREFUSED = - 111"

definition UV_ECONNRESET :: int where
  "UV_ECONNRESET = - 104"

definition UV_ETIMEDOUT :: int where
  "UV_ETIMEDOUT = - 110"

definition UV_EOF :: int where
  "UV_EOF = - 4095"

definition sock :: "which \<Rightarrow> tunnel_ctx \<Rightarrow> socket_ctx" where
  "sock c t = (case c of Incoming \<Rightarrow> incoming t | Outgoing \<Rightarrow> outgoing t)"

definition sock_update :: "which \<Rightarrow> (socket_ctx \<Rightarrow> socket_ctx) \<Rightarrow> tunnel_ctx \<Rightarrow> tunnel_ctx" where
  "sock_update c f t =
     (case c of Incoming \<Rightarrow> t\<lparr>incoming := f (incoming t)\<rparr>
              | Outgoing \<Rightarrow> t\<lparr>outgoing := f (outgoing t)\<rparr>)"

definition emit :: "effect \<Rightarrow> tunnel_ctx \<Rightarrow> tunnel_ctx" where
  "emit e t = t\<lparr>effects := effects t @ [e]\<rparr>"

text \<open>
  Modelled from the spec: \<open>ASSERT\<close>, \<open>VERIFY\<close> and \<open>UNREACHABLE\<close> come from \<open>common.h\<close>,
  which is not among the sources. The spec makes a violated programming invariant fatal to
  the process: the function stops with \<open>Assertion_failed\<close>. The libuv calls under
  \<open>VERIFY(0 == ...)\<close> are taken to succeed.
\<close>

definition ASSERT :: "bool \<Rightarrow> tunnel_ctx \<Rightarrow> fault + tunnel_ctx" where
  "ASSERT e t = (if e then Inr t else Inl Assertion_failed)"

text \<open>\<open>tunnel->tunnel_is_on_the_fly(tunnel)\<close>: the answer, and the tunnel with the call recorded.\<close>

definition is_on_the_fly :: "tunnel_ctx \<Rightarrow> fault + (bool \<times> tunnel_ctx)" where
  "is_on_the_fly t =
     (case tunnel_is_on_the_fly t of
        None \<Rightarrow> Inl Null_call
      | Some fly \<Rightarrow> Inr (fly, emit Call_tunnel_is_on_the_fly t))"

subsection \<open>Reference count\<close>

definition tunnel_is_dead :: "tunnel_ctx \<Rightarrow> bool" where
  "tunnel_is_dead t = (terminated t \<noteq> False)"

definition tunnel_add_ref :: "tunnel_ctx \<Rightarrow> tunnel_ctx" where
  "tunnel_add_ref t = t\<lparr>ref_count := ref_count t + 1\<rparr>"

definition tunnel_release :: "tunnel_ctx \<Rightarrow> tunnel_ctx" where
  "tunnel_release t =
     (let t1 = t\<lparr>ref_count := ref_count t - 1\<rparr> in
      if ref_count t1 = 0 then
        (let t2 = (if tunnel_dying t1 then emit Call_tunnel_dying t1 else t1) in
         emit Free_tunnel
           (emit (Free_socket Outgoing) (emit (Free_buf Outgoing)
             (emit (Free_socket Incoming) (emit (Free_buf Incoming) t2)))))
      else t1)"

subsection \<open>Timer\<close>

definition socket_timer_start :: "which \<Rightarrow> tunnel_ctx \<Rightarrow> tunnel_ctx" where
  "socket_timer_start c t = emit (Uv_timer_start c (idle_timeout (sock c t))) t"

definition socket_timer_stop :: "which \<Rightarrow> tunnel_ctx \<Rightarrow> tunnel_ctx" where
  "socket_timer_stop c t = emit (Uv_timer_stop c) t"

subsection \<open>Close and shutdown\<close>

text \<open>
  \<open>socket_close(c)\<close>. The two \<open>data\<close> pointers it sets let \<open>socket_close_done_cb\<close> find
  \<open>c\<close> again; here the completion is given its socket directly.
\<close>

definition socket_close :: "which \<Rightarrow> tunnel_ctx \<Rightarrow> fault + tunnel_ctx" where
  "socket_close c t =
     and_then (ASSERT (rdstate (sock c t) \<noteq> socket_dead) t) (\<lambda>t.
     and_then (ASSERT (wrstate (sock c t) \<noteq> socket_dead) t) (\<lambda>t.
       let t1 = sock_update c (\<lambda>s. s\<lparr>rdstate := socket_dead\<rparr>) t;
           t2 = sock_update c (\<lambda>s. s\<lparr>wrstate := socket_dead\<rparr>) t1;
           t3 = tunnel_add_ref t2;
           t4 = emit (Uv_close c Handle) t3;
           t5 = tunnel_add_ref t4;
           t6 = emit (Uv_close c Timer_handle) t5
       in Inr t6))"

definition socket_close_done_cb :: "which \<times> uv_handle \<Rightarrow> tunnel_ctx \<Rightarrow> tunnel_ctx" where
  "socket_close_done_cb handle t = tunnel_release t"

definition tunnel_shutdown :: "tunnel_ctx \<Rightarrow> fault + tunnel_ctx" where
  "tunnel_shutdown t =
     (if tunnel_is_dead t \<noteq> False then Inr t
      else
        (let t1 = (if getaddrinfo_pending t then emit Uv_cancel t else t) in
         and_then (socket_close Incoming t1) (\<lambda>t2.
         and_then (socket_close Outgoing t2) (\<lambda>t3.
           Inr (t3\<lparr>terminated := True\<rparr>)))))"

subsection \<open>Timer expiry\<close>

text \<open>
  \<open>tunnel_timeout_expire_done\<close> is called in the middle of the function, so what the
  collaborator does to the tunnel inside it is the parameter \<open>hook\<close>.
\<close>

definition socket_timer_expire_cb ::
  "(tunnel_ctx \<Rightarrow> fault + tunnel_ctx) \<Rightarrow> which \<Rightarrow> tunnel_ctx \<Rightarrow> fault + tunnel_ctx" where
  "socket_timer_expire_cb hook c t =
     (let t1 = sock_update c (\<lambda>s. s\<lparr>result := UV_ETIMEDOUT\<rparr>) t in
      if tunnel_is_dead t1 then Inr t1
      else
        and_then
          (if tunnel_timeout_expire_done t1
           then hook (emit (Call_tunnel_timeout_expire_done c) t1) else Inr t1)
          tunnel_shutdown)"

subsection \<open>Connect\<close>

text \<open>\<open>socket_connect(c)\<close>; libuv's answer to \<open>uv_tcp_connect\<close> is the parameter \<open>r\<close>.\<close>

definition socket_connect :: "int \<Rightarrow> which \<Rightarrow> tunnel_ctx \<Rightarrow> fault + (int \<times> tunnel_ctx)" where
  "socket_connect r c t =
     and_then
       (ASSERT (sa_family (t_addr (sock c t)) = AF_INET
                \<or> sa_family (t_addr (sock c t)) = AF_INET6) t)
       (\<lambda>t. let t1 = socket_timer_start c t in Inr (r, emit (Uv_tcp_connect c) t1))"

definition socket_connect_done_cb :: "which \<Rightarrow> int \<Rightarrow> tunnel_ctx \<Rightarrow> fault + tunnel_ctx" where
  "socket_connect_done_cb c status t =
     (let t1 = sock_update c (\<lambda>s. s\<lparr>result := status\<rparr>) t in
      if tunnel_is_dead t1 then Inr t1
      else
        (let t2 = socket_timer_stop c t1 in
         if status = UV_ECANCELED \<or> status = UV_ECONNREFUSED then tunnel_shutdown t2
         else
           and_then (ASSERT (tunnel_outgoing_connected_done t2) t2) (\<lambda>t3.
             Inr (emit (Call_tunnel_outgoing_connected_done c) t3))))"

subsection \<open>Read\<close>

definition socket_read :: "which \<Rightarrow> tunnel_ctx \<Rightarrow> fault + tunnel_ctx" where
  "socket_read c t =
     and_then (ASSERT (rdstate (sock c t) = socket_stop) t) (\<lambda>t.
       let t1 = emit (Uv_read_start c) t;
           t2 = sock_update c (\<lambda>s. s\<lparr>rdstate := socket_busy\<rparr>) t1
       in Inr (socket_timer_start c t2))"

text \<open>
  \<open>socket_read_done_cb(handle, nread, buf)\<close>; \<open>buf_is_ours\<close> is the truth of
  \<open>c->buf == buf->base\<close>.
\<close>

definition socket_read_done_cb :: "which \<Rightarrow> int \<Rightarrow> bool \<Rightarrow> tunnel_ctx \<Rightarrow> fault + tunnel_ctx" where
  "socket_read_done_cb c nread buf_is_ours t =
     (if tunnel_is_dead t then Inr t
      else
        and_then (is_on_the_fly t) (\<lambda>(fly, t).
          let t1 = (if fly = False then emit (Uv_read_stop c) t else t);
              t2 = socket_timer_stop c t1
          in
          if nread = 0 then Inr t2
          else if nread < 0 then
            and_then (ASSERT (nread = UV_EOF \<or> nread = UV_ECONNRESET) t2) tunnel_shutdown
          else
            and_then (ASSERT buf_is_ours t2) (\<lambda>t.
            and_then (is_on_the_fly t) (\<lambda>(fly, t).
            and_then (if fly = False then ASSERT (rdstate (sock c t) = socket_busy) t else Inr t)
              (\<lambda>t.
                let t3 = sock_update c (\<lambda>s. s\<lparr>rdstate := socket_done\<rparr>) t;
                    t4 = sock_update c (\<lambda>s. s\<lparr>result := nread\<rparr>) t3
                in
                and_then (ASSERT (tunnel_read_done t4) t4) (\<lambda>t.
                  Inr (emit (Call_tunnel_read_done c) t)))))))"

definition socket_read_stop :: "which \<Rightarrow> tunnel_ctx \<Rightarrow> tunnel_ctx" where
  "socket_read_stop c t =
     sock_update c (\<lambda>s. s\<lparr>rdstate := socket_stop\<rparr>) (emit (Uv_read_stop c) t)"

subsection \<open>Resolve\<close>

definition socket_getaddrinfo :: "which \<Rightarrow> string \<Rightarrow> tunnel_ctx \<Rightarrow> tunnel_ctx" where
  "socket_getaddrinfo c hostname t =
     (let t1 = emit (Uv_getaddrinfo c hostname) t;
          t2 = socket_timer_start c t1
      in t2\<lparr>getaddrinfo_pending := True\<rparr>)"

text \<open>
  \<open>socket_getaddrinfo_done_cb(req, status, ai)\<close>; \<open>ai\<close> is read only when \<open>status\<close> is 0,
  where libuv passes a result.
\<close>

definition socket_getaddrinfo_done_cb ::
  "which \<Rightarrow> int \<Rightarrow> addrinfo \<Rightarrow> tunnel_ctx \<Rightarrow> fault + tunnel_ctx" where
  "socket_getaddrinfo_done_cb c status ai t =
     (let t1 = sock_update c (\<lambda>s. s\<lparr>result := status\<rparr>) t;
          t2 = t1\<lparr>getaddrinfo_pending := False\<rparr>
      in
      if tunnel_is_dead t2 then Inr t2
      else
        (let t3 = socket_timer_stop c t2 in
         and_then
           (if status = 0 then
              (if ai_family ai = AF_INET then Inr (sock_update c (\<lambda>s. s\<lparr>t_addr := ai_addr ai\<rparr>) t3)
               else if ai_family ai = AF_INET6
                 then Inr (sock_update c (\<lambda>s. s\<lparr>t_addr := ai_addr ai\<rparr>) t3)
               else Inl Assertion_failed)
            else Inr t3)
           (\<lambda>t4.
             let t5 = emit Uv_freeaddrinfo t4 in
             and_then (ASSERT (tunnel_getaddrinfo_done t5) t5) (\<lambda>t.
               Inr (emit (Call_tunnel_getaddrinfo_done c) t)))))"

subsection \<open>Write\<close>

text \<open>
  \<open>socket_write(c, data, len)\<close>. The buffer handed to \<open>uv_write\<close> has the length
  \<open>(unsigned int)len\<close>, 32 bits wide.
\<close>

definition socket_write :: "which \<Rightarrow> nat \<Rightarrow> tunnel_ctx \<Rightarrow> fault + tunnel_ctx" where
  "socket_write c len t =
     and_then (is_on_the_fly t) (\<lambda>(fly, t).
     and_then
       (if fly = False
        then ASSERT (wrstate (sock c t) = socket_stop \<or> wrstate (sock c t) = socket_done) t
        else Inr t)
       (\<lambda>t.
         let t1 = sock_update c (\<lambda>s. s\<lparr>wrstate := socket_busy\<rparr>) t;
             t2 = emit Calloc_write_req t1;
             t3 = emit (Uv_write c (len mod 2 ^ 32)) t2
         in Inr (socket_timer_start c t3)))"

definition socket_write_done_cb :: "which \<Rightarrow> int \<Rightarrow> tunnel_ctx \<Rightarrow> fault + tunnel_ctx" where
  "socket_write_done_cb c status t =
     (let t0 = emit Free_write_req t in
      if tunnel_is_dead t0 then Inr t0
      else
        (let t1 = socket_timer_stop c t0 in
         if status = UV_ECANCELED then tunnel_shutdown t1
         else
           and_then (is_on_the_fly t1) (\<lambda>(fly, t).
           and_then (if fly = False then ASSERT (wrstate (sock c t) = socket_busy) t else Inr t)
             (\<lambda>t.
               let t2 = sock_update c (\<lambda>s. s\<lparr>wrstate := socket_done\<rparr>) t;
                   t3 = sock_update c (\<lambda>s. s\<lparr>result := status\<rparr>) t2
               in
               and_then (ASSERT (tunnel_write_done t3) t3) (\<lambda>t.
                 Inr (emit (Call_tunnel_write_done c) t))))))"

subsection \<open>Construction\<close>

text \<open>
  \<open>tunnel_initialize(listener, idle_timeout, init_done_cb, p)\<close>. \<open>calloc\<close> zeroes the three
  objects, so no hook is set until \<open>init_done_cb\<close>, the collaborator's function given here
  as what it returns and what it makes of the tunnel, installs them.
\<close>

definition new_socket :: "nat \<Rightarrow> socket_ctx" where
  "new_socket timeout =
     \<lparr>rdstate = socket_stop, wrstate = socket_stop, result = 0, idle_timeout = timeout,
      t_addr = \<lparr>sa_family = AF_UNSPEC, sa_data = []\<rparr>\<rparr>"

definition new_tunnel :: "nat \<Rightarrow> tunnel_ctx" where
  "new_tunnel timeout =
     \<lparr>incoming = new_socket timeout, outgoing = new_socket timeout, ref_count = 0,
      terminated = False, getaddrinfo_pending = False, tunnel_dying = False,
      tunnel_timeout_expire_done = False, tunnel_outgoing_connected_done = False,
      tunnel_read_done = False, tunnel_getaddrinfo_done = False, tunnel_write_done = False,
      tunnel_is_on_the_fly = None,
      effects = [Uv_timer_init Incoming, Uv_tcp_init Incoming, Uv_accept,
                 Uv_timer_init Outgoing, Uv_tcp_init Outgoing]\<rparr>"

definition tunnel_initialize ::
  "nat \<Rightarrow> (tunnel_ctx \<Rightarrow> bool \<times> tunnel_ctx) option \<Rightarrow> fault + tunnel_ctx" where
  "tunnel_initialize timeout init_done_cb =
     (let t = new_tunnel timeout;
          (success, t1) = (case init_done_cb of None \<Rightarrow> (False, t) | Some cb \<Rightarrow> cb t)
      in if success then socket_read Incoming t1 else tunnel_shutdown t1)"

text \<open>
  A collaborator that installs every hook and answers \<open>fly\<close> to \<open>tunnel_is_on_the_fly\<close>:
  the tunnels on which the theorems below are exercised.
\<close>

definition install_hooks :: "bool \<Rightarrow> tunnel_ctx \<Rightarrow> tunnel_ctx" where
  "install_hooks fly t =
     t\<lparr>tunnel_dying := True, tunnel_timeout_expire_done := True,
       tunnel_outgoing_connected_done := True, tunnel_read_done := True,
       tunnel_getaddrinfo_done := True, tunnel_write_done := True,
       tunnel_is_on_the_fly := Some fly\<rparr>"

definition live_tunnel :: tunnel_ctx where
  "live_tunnel = install_hooks False (new_tunnel 60000)"


subsection \<open>Runs of the reactor\<close>

text \<open>
  libuv runs the callback of each \<open>uv_close\<close> request later, one at a time and in an
  order of its own. \<open>close_completions hs\<close> is the tunnel after the completions of the
  handles \<open>hs\<close> have run in that order.
\<close>

definition close_completions :: "(which \<times> uv_handle) list \<Rightarrow> tunnel_ctx \<Rightarrow> tunnel_ctx" where
  "close_completions hs t = fold socket_close_done_cb hs t"

text \<open>Shutdown called again and again: \<open>n\<close> further calls, stopping at a fault.\<close>

definition shutdown_again :: "nat \<Rightarrow> tunnel_ctx \<Rightarrow> fault + tunnel_ctx" where
  "shutdown_again n t = ((\<lambda>r. and_then r tunnel_shutdown) ^^ n) (Inr t)"

text \<open>The tunnel \<open>live_tunnel\<close> after \<open>tunnel_shutdown\<close>.\<close>

definition shut_tunnel :: tunnel_ctx where
  "shut_tunnel = (case tunnel_shutdown live_tunnel of Inr t \<Rightarrow> t | Inl e \<Rightarrow> live_tunnel)"

subsection \<open>Abbreviations for the statements\<close>

text \<open>What \<open>tunnel_shutdown\<close> asks of libuv on a live tunnel, in order.\<close>

definition shutdown_effects :: "tunnel_ctx \<Rightarrow> effect list" where
  "shutdown_effects t =
     (if getaddrinfo_pending t then [Uv_cancel] else [])
     @ [Uv_close Incoming Handle, Uv_close Incoming Timer_handle,
        Uv_close Outgoing Handle, Uv_close Outgoing Timer_handle]"

text \<open>What \<open>tunnel_release\<close> does when the count reaches zero, in order.\<close>

definition destroy_effects :: "tunnel_ctx \<Rightarrow> effect list" where
  "destroy_effects t =
     (if tunnel_dying t then [Call_tunnel_dying] else [])
     @ [Free_buf Incoming, Free_socket Incoming, Free_buf Outgoing, Free_socket Outgoing,
        Free_tunnel]"



text \<open>
  The state invariant of the tunnel: a socket state is \<open>socket_dead\<close> only on a
  terminated tunnel.
\<close>

definition closed_only_after_shutdown :: "tunnel_ctx \<Rightarrow> bool" where
  "closed_only_after_shutdown t \<longleftrightarrow>
     terminated t
     \<or> (rdstate (incoming t) \<noteq> socket_dead \<and> wrstate (incoming t) \<noteq> socket_dead
        \<and> rdstate (outgoing t) \<noteq> socket_dead \<and> wrstate (outgoing t) \<noteq> socket_dead)"

section \<open>Properties of the address codec\<close>

lemma and_then_Inr [simp]: "and_then (Inr x) f = f x"
  by (simp add: and_then_def)

lemma and_then_Inl [simp]: "and_then (Inl e) f = Inl e"
  by (simp add: and_then_def)

lemma and_then_eq_Inr:
  "and_then r f = Inr y \<longleftrightarrow> (\<exists>x. r = Inr x \<and> f x = Inr y)"
  by (cases r) simp_all

subsection \<open>Writing and reading the wire format\<close>

lemma be16: "push_bit 8 (ucast (ucast (drop_bit 8 p) :: byte)) OR ucast (ucast p :: byte) = (p :: 16 word)"
  by (rule bit_word_eqI) (auto simp: bit_simps)

lemma wr_next:
  "length pre < length b \<Longrightarrow>
   wr (pre @ drop (length pre) b) (length pre) v = Inr ((pre @ [v]) @ drop (Suc (length pre)) b)"
  by (simp add: wr_def list_update_append Cons_nth_drop_Suc [symmetric] upd_conv_take_nth_drop
          flip: drop_Suc)

lemma memcpy_next:
  "length pre + n \<le> length b \<Longrightarrow> n \<le> length src \<Longrightarrow>
   memcpy (pre @ drop (length pre) b) (length pre) src 0 n =
     Inr ((pre @ take n src) @ drop (length pre + n) b)"
  by (simp add: memcpy_def add.commute)

lemma htons_next:
  "length pre + 2 \<le> length b \<Longrightarrow>
   htons_at (pre @ drop (length pre) b) (length pre) p =
     Inr ((pre @ [ucast (drop_bit 8 p), ucast p]) @ drop (length pre + 2) b)"
  using wr_next [of pre b "ucast (drop_bit 8 p)"]
        wr_next [of "pre @ [ucast (drop_bit 8 p)]" b "ucast p"]
  by (simp add: htons_at_def)

lemma ntohs_at_wire:
  "length pre = i \<Longrightarrow>
   ntohs_at (pre @ [ucast (drop_bit 8 p), ucast p] @ rest) i = Inr (p :: 16 word)"
  by (simp add: ntohs_at_def rd_def nth_append be16)

lemma strlen_domainname:
  "0 \<in> set (domainname h a) \<Longrightarrow> addr_type a = SOCKS5_ADDRTYPE_DOMAINNAME h \<Longrightarrow>
   header_ok h \<Longrightarrow>
   strlen (domainname h a) = Inr (length (payload h a))"
  by (auto simp: strlen_def payload_def header_ok_def)

lemma name_shorter:
  assumes "0 \<in> set s"
  shows "length (takeWhile (\<lambda>c. c \<noteq> (0::byte)) s) < length s"
proof -
  have "takeWhile (\<lambda>c. c \<noteq> 0) s \<noteq> s"
    using assms by (metis (mono_tags, lifting) takeWhile_eq_all_conv)
  moreover have "length (takeWhile (\<lambda>c. c \<noteq> 0) s) \<le> length s"
    by (rule length_takeWhile_le)
  ultimately show ?thesis
    by (metis (no_types, lifting) le_neq_implies_less takeWhile_eq_take take_all_iff linorder_not_less)
qed

lemma size_valid:
  assumes "header_ok h" "valid_address h a"
  shows "socks5_address_size h (Some a) = Inr (length (wire_format h a))"
  using assms
  by (auto simp: socks5_address_size_def strlen_domainname wire_format_def payload_def
        valid_address_def header_ok_def sizeof_addr_def sizeof_in_addr_def sizeof_in6_addr_def)


lemma unat_name_length:
  "n < 256 \<Longrightarrow> unat (word_of_nat n :: byte) = n"
  by (simp add: unat_of_nat)

lemma payload_length_domain:
  assumes "header_ok h" "valid_address h a" "addr_type a = SOCKS5_ADDRTYPE_DOMAINNAME h"
  shows "length (payload h a) < sizeof_domainname h"
proof -
  have z: "0 \<in> set (domainname h a)"
    using assms by (auto simp: valid_address_def header_ok_def)
  have "length (domainname h a) = sizeof_domainname h"
    using assms by (simp add: domainname_def valid_address_def sizeof_addr_def)
  with name_shorter [OF z] show ?thesis
    using assms by (simp add: payload_def header_ok_def)
qed

lemma payload_domain_take:
  assumes "addr_type a = SOCKS5_ADDRTYPE_DOMAINNAME h" "header_ok h"
  shows "take (length (payload h a)) (domainname h a) = payload h a"
  using assms by (simp add: payload_def header_ok_def takeWhile_eq_take [symmetric])

lemma binary_valid:
  assumes h: "header_ok h" and v: "valid_address h a"
    and b: "length b = sz" and n: "length (wire_format h a) \<le> sz"
  shows "socks5_address_binary h (Some a) (Some b) sz
         = Inr (True, Some (wire_format h a @ drop (length (wire_format h a)) b))"
proof -
  let ?t = "word_of_int (addr_type a) :: byte"
  let ?p = "payload h a"
  have sz: "sz \<noteq> 0" "\<not> sz < length (wire_format h a)"
    using n by (auto simp: wire_format_def)
  have w0: "wr b 0 ?t = Inr ([?t] @ drop 1 b)"
    using wr_next [of "[]" b ?t] n b by (auto simp: wire_format_def)
  consider (v4) "addr_type a = SOCKS5_ADDRTYPE_IPV4 h"
    | (dn) "addr_type a = SOCKS5_ADDRTYPE_DOMAINNAME h" "0 \<in> set (domainname h a)"
    | (v6) "addr_type a = SOCKS5_ADDRTYPE_IPV6 h"
    using v by (auto simp: valid_address_def)
  then show ?thesis
  proof cases
    case v4
    have la: "4 \<le> length (addr a)"
      using v by (simp add: valid_address_def sizeof_addr_def sizeof_in6_addr_def)
    have p: "?p = take 4 (addr a)" "length ?p = 4"
      using v4 la by (simp_all add: payload_def sizeof_in_addr_def)
    have wf: "wire_format h a = [?t] @ ?p @ [ucast (drop_bit 8 (port a)), ucast (port a)]"
      using v4 h by (simp add: wire_format_def header_ok_def)
    have m: "memcpy ([?t] @ drop 1 b) 1 (addr a) 0 4 = Inr (([?t] @ ?p) @ drop 5 b)"
      using memcpy_next [of "[?t]" 4 b "addr a"] n b la p wf by simp
    have s: "htons_at (([?t] @ ?p) @ drop 5 b) 5 (port a)
             = Inr ((([?t] @ ?p) @ [ucast (drop_bit 8 (port a)), ucast (port a)]) @ drop 7 b)"
      using htons_next [of "[?t] @ ?p" b "port a"] n b p wf by simp
    show ?thesis
      using v4 sz w0 m s p
      by (simp add: socks5_address_binary_def size_valid [OF h v] sizeof_in_addr_def wf)
  next
    case v6
    have la: "16 \<le> length (addr a)"
      using v by (simp add: valid_address_def sizeof_addr_def sizeof_in6_addr_def)
    have p: "?p = take 16 (addr a)" "length ?p = 16"
      using v6 la h by (simp_all add: payload_def sizeof_in6_addr_def header_ok_def)
    have wf: "wire_format h a = [?t] @ ?p @ [ucast (drop_bit 8 (port a)), ucast (port a)]"
      using v6 h by (simp add: wire_format_def header_ok_def)
    have m: "memcpy ([?t] @ drop 1 b) 1 (addr a) 0 16 = Inr (([?t] @ ?p) @ drop 17 b)"
      using memcpy_next [of "[?t]" 16 b "addr a"] n b la p wf by simp
    have s: "htons_at (([?t] @ ?p) @ drop 17 b) 17 (port a)
             = Inr ((([?t] @ ?p) @ [ucast (drop_bit 8 (port a)), ucast (port a)]) @ drop 19 b)"
      using htons_next [of "[?t] @ ?p" b "port a"] n b p wf by simp
    show ?thesis
      using v6 sz w0 m s p h
      by (simp add: socks5_address_binary_def size_valid [OF h v] sizeof_in6_addr_def wf
            header_ok_def)
  next
    case dn
    let ?n = "length ?p"
    let ?l = "word_of_nat ?n :: byte"
    have wf: "wire_format h a = [?t, ?l] @ ?p @ [ucast (drop_bit 8 (port a)), ucast (port a)]"
      using dn by (simp add: wire_format_def)
    have sl: "strlen (domainname h a) = Inr ?n"
      using dn h by (simp add: strlen_domainname)
    have ld: "?n \<le> length (domainname h a)"
      using dn h by (simp add: payload_def header_ok_def length_takeWhile_le)
    have w1: "wr ([?t] @ drop 1 b) 1 ?l = Inr ([?t, ?l] @ drop 2 b)"
      using wr_next [of "[?t]" b ?l] n b wf by (simp add: numeral_2_eq_2)
    have m: "memcpy ([?t, ?l] @ drop 2 b) 2 (domainname h a) 0 ?n
             = Inr (([?t, ?l] @ ?p) @ drop (2 + ?n) b)"
      using memcpy_next [of "[?t, ?l]" ?n b "domainname h a"] n b ld wf
        payload_domain_take [OF dn(1) h] by (simp add: numeral_2_eq_2)
    have s: "htons_at (([?t, ?l] @ ?p) @ drop (2 + ?n) b) (2 + ?n) (port a)
             = Inr ((([?t, ?l] @ ?p) @ [ucast (drop_bit 8 (port a)), ucast (port a)])
                    @ drop (2 + ?n + 2) b)"
      using htons_next [of "[?t, ?l] @ ?p" b "port a"] n b wf by (simp add: numeral_2_eq_2)
    show ?thesis
      using dn sz w0 w1 m s sl h
      by (simp add: socks5_address_binary_def size_valid [OF h v] wf header_ok_def)
  qed
qed


lemma uint_tag:
  "0 \<le> x \<Longrightarrow> x < 256 \<Longrightarrow> uint (word_of_int x :: byte) = x"
  by (simp add: uint_word_of_int)

lemma parse_wire:
  assumes h: "header_ok h" and v: "valid_address h a"
    and out: "length (addr out) = sizeof_addr h"
    and n: "length (wire_format h a) \<le> len"
  shows "\<exists>a'. socks5_address_parse h (Some (wire_format h a @ rest)) len (Some out)
                = Inr (True, Some a')
              \<and> addr_type a' = addr_type a \<and> payload h a' = payload h a \<and> port a' = port a"
proof -
  let ?t = "word_of_int (addr_type a) :: byte"
  let ?p = "payload h a"
  let ?hl = "[ucast (drop_bit 8 (port a)), ucast (port a)] :: byte list"
  have len0: "len \<noteq> 0"
    using n by (auto simp: wire_format_def)
  have lo: "16 \<le> length (addr out)" "sizeof_domainname h \<le> length (addr out)"
    using out by (simp_all add: sizeof_addr_def sizeof_in6_addr_def)
  consider (v4) "addr_type a = SOCKS5_ADDRTYPE_IPV4 h"
    | (dn) "addr_type a = SOCKS5_ADDRTYPE_DOMAINNAME h" "0 \<in> set (domainname h a)"
    | (v6) "addr_type a = SOCKS5_ADDRTYPE_IPV6 h"
    using v by (auto simp: valid_address_def)
  then show ?thesis
  proof cases
    case v4
    have la: "4 \<le> length (addr a)"
      using v by (simp add: valid_address_def sizeof_addr_def sizeof_in6_addr_def)
    have p: "?p = take 4 (addr a)" "length ?p = 4"
      using v4 la by (simp_all add: payload_def sizeof_in_addr_def)
    have wf: "wire_format h a = [?t] @ ?p @ ?hl"
      using v4 h by (simp add: wire_format_def header_ok_def)
    have t: "uint ?t = SOCKS5_ADDRTYPE_IPV4 h"
      using v4 h by (simp add: uint_tag header_ok_def)
    have r0: "rd (wire_format h a @ rest) 0 = Inr ?t"
      by (simp add: rd_def wf)
    have m: "memcpy (addr out) 0 (wire_format h a @ rest) 1 4 = Inr (?p @ drop 4 (addr out))"
      using lo p by (simp add: memcpy_def wf)
    have pt: "ntohs_at (wire_format h a @ rest) 5 = Inr (port a)"
      using ntohs_at_wire [of "[?t] @ ?p" 5 "port a" rest] p by (simp add: wf)
    have "socks5_address_parse h (Some (wire_format h a @ rest)) len (Some out)
          = Inr (True, Some (out\<lparr>addr_type := SOCKS5_ADDRTYPE_IPV4 h,
                                   addr := ?p @ drop 4 (addr out), port := port a\<rparr>))"
      using len0 n r0 t m pt p
      by (simp add: socks5_address_parse_def parse_port_def sizeof_in_addr_def wf)
    then show ?thesis
      using v4 p by (simp add: payload_def sizeof_in_addr_def)
  next
    case v6
    have la: "16 \<le> length (addr a)"
      using v by (simp add: valid_address_def sizeof_addr_def sizeof_in6_addr_def)
    have ne: "SOCKS5_ADDRTYPE_IPV6 h \<noteq> SOCKS5_ADDRTYPE_IPV4 h"
      "SOCKS5_ADDRTYPE_IPV6 h \<noteq> SOCKS5_ADDRTYPE_DOMAINNAME h"
      using h by (auto simp: header_ok_def)
    have p: "?p = take 16 (addr a)" "length ?p = 16"
      using v6 la ne by (simp_all add: payload_def sizeof_in6_addr_def)
    have wf: "wire_format h a = [?t] @ ?p @ ?hl"
      using v6 ne by (simp add: wire_format_def)
    have t: "uint ?t = SOCKS5_ADDRTYPE_IPV6 h"
      using v6 h by (simp add: uint_tag header_ok_def)
    have r0: "rd (wire_format h a @ rest) 0 = Inr ?t"
      by (simp add: rd_def wf)
    have m: "memcpy (addr out) 0 (wire_format h a @ rest) 1 16 = Inr (?p @ drop 16 (addr out))"
      using lo p by (simp add: memcpy_def wf)
    have pt: "ntohs_at (wire_format h a @ rest) 17 = Inr (port a)"
      using ntohs_at_wire [of "[?t] @ ?p" 17 "port a" rest] p by (simp add: wf)
    have "socks5_address_parse h (Some (wire_format h a @ rest)) len (Some out)
          = Inr (True, Some (out\<lparr>addr_type := SOCKS5_ADDRTYPE_IPV6 h,
                                   addr := ?p @ drop 16 (addr out), port := port a\<rparr>))"
      using len0 n r0 t m pt p ne
      by (simp add: socks5_address_parse_def parse_port_def sizeof_in6_addr_def wf)
    then show ?thesis
      using v6 p ne by (simp add: payload_def sizeof_in6_addr_def)
  next
    case dn
    let ?n = "length ?p"
    let ?l = "word_of_nat ?n :: byte"
    let ?c = "sizeof_domainname h"
    let ?z = "replicate ?c (0::byte) @ drop ?c (addr out)"
    have ne: "SOCKS5_ADDRTYPE_DOMAINNAME h \<noteq> SOCKS5_ADDRTYPE_IPV4 h"
      using h by (auto simp: header_ok_def)
    have nc: "?n < ?c"
      by (rule payload_length_domain [OF h v dn(1)])
    have c256: "?c \<le> 256"
      using h by (simp add: header_ok_def)
    have wf: "wire_format h a = [?t, ?l] @ ?p @ ?hl"
      using dn by (simp add: wire_format_def)
    have t: "uint ?t = SOCKS5_ADDRTYPE_DOMAINNAME h"
      using dn h by (simp add: uint_tag header_ok_def)
    have l: "unat ?l = ?n"
      using nc c256 by (simp add: unat_name_length)
    have r0: "rd (wire_format h a @ rest) 0 = Inr ?t"
      by (simp add: rd_def wf)
    have r1: "rd (wire_format h a @ rest) 1 = Inr ?l"
      by (simp add: rd_def wf)
    have ms: "memset (addr out) 0 ?c = Inr ?z"
      using lo by (simp add: memset_def)
    have m: "memcpy ?z 0 (wire_format h a @ rest) 2 ?n = Inr (?p @ drop ?n ?z)"
      using lo nc by (simp add: memcpy_def wf)
    have pt: "ntohs_at (wire_format h a @ rest) (2 + ?n) = Inr (port a)"
      using ntohs_at_wire [of "[?t, ?l] @ ?p" "2 + ?n" "port a" rest] by (simp add: wf)
    have res: "socks5_address_parse h (Some (wire_format h a @ rest)) len (Some out)
          = Inr (True, Some (out\<lparr>addr_type := SOCKS5_ADDRTYPE_DOMAINNAME h,
                                   addr := ?p @ drop ?n ?z, port := port a\<rparr>))"
      using len0 n r0 r1 t l ms m pt ne
      by (simp add: socks5_address_parse_def parse_port_def wf Let_def)
    have nz: "\<forall>x \<in> set ?p. x \<noteq> 0"
      using dn(1) ne by (auto simp: payload_def dest: set_takeWhileD)
    have "take ?c (?p @ drop ?n ?z) = ?p @ replicate (?c - ?n) 0"
      using nc by simp
    then have "takeWhile (\<lambda>c. c \<noteq> 0) (take ?c (?p @ drop ?n ?z)) = ?p"
      using nz by (simp add: takeWhile_append2)
    then show ?thesis
      using res dn(1) ne by (simp add: payload_def domainname_def)
  qed
qed


subsection \<open>The spec's scenarios\<close>

lemma scenario_ipv4:
  "socks5_address_binary socks5_h (Some ipv4_1_2_3_4_port_80) (Some (replicate 7 0)) 7
     = Inr (True, Some [0x01, 0x01, 0x02, 0x03, 0x04, 0x00, 0x50])"
  by code_simp

lemma scenario_domain:
  "socks5_address_binary socks5_h (Some example_com_port_443) (Some (replicate 15 0)) 15
     = Inr (True, Some [0x03, 0x0B, 0x65, 0x78, 0x61, 0x6D, 0x70, 0x6C, 0x65, 0x2E, 0x63,
                         0x6F, 0x6D, 0x01, 0xBB])"
  by code_simp

subsection \<open>The claims about the codec\<close>

text \<open>
  C1. Round trip. For a header that satisfies \<open>header_ok\<close>, a valid address \<open>a\<close> (IPv4,
  IPv6, or a domain name that ends inside the name array) and a buffer \<open>b\<close> of \<open>sz\<close> bytes
  with \<open>sz\<close> at least \<open>socks5_address_size\<close> of \<open>a\<close>: that size \<open>n\<close> is the length of the
  wire format of \<open>a\<close>; \<open>socks5_address_binary\<close> succeeds and writes exactly those \<open>n\<close>
  bytes at the start of \<open>b\<close>, leaving the rest of \<open>b\<close> as it was; and
  \<open>socks5_address_parse\<close> of the buffer so written succeeds with an address of the kind,
  payload and port of \<open>a\<close>.
\<close>

theorem codec_round_trip:
  assumes "header_ok h" and "valid_address h a"
    and "length (addr out) = sizeof_addr h" and "length b = sz"
    and "socks5_address_size h (Some a) = Inr n" and "n \<le> sz"
  shows "length (wire_format h a) = n
    \<and> socks5_address_binary h (Some a) (Some b) sz
        = Inr (True, Some (wire_format h a @ drop n b))
    \<and> (\<exists>a'. socks5_address_parse h (Some (wire_format h a @ drop n b)) sz (Some out)
               = Inr (True, Some a')
             \<and> addr_type a' = addr_type a \<and> payload h a' = payload h a \<and> port a' = port a)"
proof -
  have n: "length (wire_format h a) = n"
    using size_valid [OF assms(1,2)] assms(5) by simp
  have le: "length (wire_format h a) \<le> sz"
    using n assms(6) by simp
  show ?thesis
    using n binary_valid [OF assms(1,2,4) le]
      parse_wire [OF assms(1,2,3) le, of "drop n b"]
    by simp
qed

theorem codec_round_trip_witness:
  "header_ok socks5_h \<and> valid_address socks5_h example_com_port_443
   \<and> length (addr blank_address) = sizeof_addr socks5_h
   \<and> length (replicate 20 (0::byte)) = 20
   \<and> socks5_address_size socks5_h (Some example_com_port_443) = Inr 15 \<and> (15::nat) \<le> 20
   \<and> length (wire_format socks5_h example_com_port_443) = 15
   \<and> socks5_address_binary socks5_h (Some example_com_port_443) (Some (replicate 20 0)) 20
       = Inr (True, Some (wire_format socks5_h example_com_port_443 @ drop 15 (replicate 20 0)))
   \<and> (\<exists>a'. socks5_address_parse socks5_h
               (Some (wire_format socks5_h example_com_port_443 @ drop 15 (replicate 20 0)))
               20 (Some blank_address)
              = Inr (True, Some a')
            \<and> addr_type a' = addr_type example_com_port_443
            \<and> payload socks5_h a' = payload socks5_h example_com_port_443
            \<and> port a' = port example_com_port_443)"
proof -
  have h1: "header_ok socks5_h"
    by (simp add: header_ok_def socks5_h_def)
  have h2: "valid_address socks5_h example_com_port_443"
    by code_simp
  have h3: "length (addr blank_address) = sizeof_addr socks5_h"
    by code_simp
  have h4: "length (replicate 20 (0::byte)) = 20"
    by simp
  have h5: "socks5_address_size socks5_h (Some example_com_port_443) = Inr 15"
    by code_simp
  have h6: "(15::nat) \<le> 20"
    by simp
  from codec_round_trip [OF h1 h2 h3 h4 h5 h6] h1 h2 h3 h4 h5 h6
  show ?thesis by blast
qed

text \<open>
  C2. The claim fails on a buffer that holds the domain-name tag and nothing else:
  \<open>socks5_address_parse\<close> reads \<open>data[1]\<close>, the length prefix, before it compares \<open>len\<close>
  with anything but 0, and that byte is outside the one-byte buffer.
\<close>

theorem parse_bare_domain_tag_reads_past_end:
  "socks5_address_parse socks5_h (Some [3]) 1 (Some a) = Inl Out_of_bounds"
  by (simp add: socks5_address_parse_def socks5_h_def rd_def)

text \<open>
  Everywhere else truncated input is rejected as C2 says. With \<open>len\<close> the length of the
  buffer and an output object of the struct's size, the call above is the only
  out-of-bounds access \<open>socks5_address_parse\<close> makes.
\<close>

lemma parse_fault_only_bare_domain_tag:
  assumes "socks5_address_parse h (Some d) len (Some a) = Inl e"
    and "length d = len" and "length (addr a) = sizeof_addr h"
    and "256 \<le> sizeof_domainname h"
  shows "len = 1 \<and> uint (d ! 0) = SOCKS5_ADDRTYPE_DOMAINNAME h \<and> e = Out_of_bounds"
proof -
  have b: "unat (d ! 1) \<le> sizeof_domainname h"
    using assms(4) unsigned_less [of "d ! 1", where ?'a = nat] by simp
  show ?thesis
    using assms b
    by (auto simp: socks5_address_parse_def parse_port_def ntohs_at_def rd_def memcpy_def
          memset_def sizeof_addr_def sizeof_in_addr_def sizeof_in6_addr_def Let_def
        split: if_splits)
qed

lemma parse_truncated_rejected:
  assumes "length d = len" and "len \<noteq> 0"
  shows "uint (d ! 0) = SOCKS5_ADDRTYPE_IPV4 h \<Longrightarrow> len < 7 \<Longrightarrow>
           socks5_address_parse h (Some d) len (Some a) = Inr (False, Some a)"
    and "uint (d ! 0) \<noteq> SOCKS5_ADDRTYPE_IPV4 h \<Longrightarrow> uint (d ! 0) = SOCKS5_ADDRTYPE_DOMAINNAME h
           \<Longrightarrow> 2 \<le> len \<Longrightarrow> len < 4 + unat (d ! 1) \<Longrightarrow>
           socks5_address_parse h (Some d) len (Some a) = Inr (False, Some a)"
    and "uint (d ! 0) \<noteq> SOCKS5_ADDRTYPE_IPV4 h \<Longrightarrow> uint (d ! 0) \<noteq> SOCKS5_ADDRTYPE_DOMAINNAME h
           \<Longrightarrow> uint (d ! 0) = SOCKS5_ADDRTYPE_IPV6 h \<Longrightarrow> len < 19 \<Longrightarrow>
           socks5_address_parse h (Some d) len (Some a) = Inr (False, Some a)"
  using assms
  by (simp_all add: socks5_address_parse_def rd_def sizeof_in_addr_def sizeof_in6_addr_def
        Let_def)

text \<open>
  C3, as stated, fails on an unrecognised tag: \<open>socks5_address_parse\<close> returns failure but
  has set \<open>addr->addr_type\<close> to \<open>SOCKS5_ADDRTYPE_INVALID\<close>. Here the output object held an
  IPv4 address (kind 1) and holds kind 0 afterwards.
\<close>

theorem parse_unknown_tag_counterexample:
  "socks5_address_parse socks5_h (Some [5]) 1
     (Some \<lparr>addr = replicate 256 0, port = 0, addr_type = 1\<rparr>)
   = Inr (False, Some \<lparr>addr = replicate 256 0, port = 0, addr_type = 0\<rparr>)
   \<and> \<lparr>addr = replicate 256 0, port = 0, addr_type = 0\<rparr>
       \<noteq> \<lparr>addr = replicate 256 (0::byte), port = 0 :: 16 word, addr_type = 1 :: int\<rparr>"
  by (simp add: socks5_address_parse_def socks5_h_def rd_def)

text \<open>
  C3, amended. Whenever \<open>socks5_address_parse\<close> returns failure on non-null arguments,
  the output object is unmodified if \<open>len\<close> is 0 or the tag is one of the three kinds
  (the input was too short), and otherwise (the tag is unrecognised) only its kind has
  changed, to \<open>SOCKS5_ADDRTYPE_INVALID\<close>: payload and port are never partly written. And
  on an unrecognised tag the function does return failure, with that output.
\<close>

theorem parse_failure_output:
  "(socks5_address_parse h (Some d) len (Some a) = Inr (False, r) \<longrightarrow>
      (if len = 0 \<or> uint (d ! 0) = SOCKS5_ADDRTYPE_IPV4 h
          \<or> uint (d ! 0) = SOCKS5_ADDRTYPE_DOMAINNAME h
          \<or> uint (d ! 0) = SOCKS5_ADDRTYPE_IPV6 h
       then r = Some a
       else r = Some (a\<lparr>addr_type := SOCKS5_ADDRTYPE_INVALID h\<rparr>)))
   \<and> (d \<noteq> [] \<and> len \<noteq> 0 \<and> uint (d ! 0) \<noteq> SOCKS5_ADDRTYPE_IPV4 h
        \<and> uint (d ! 0) \<noteq> SOCKS5_ADDRTYPE_DOMAINNAME h
        \<and> uint (d ! 0) \<noteq> SOCKS5_ADDRTYPE_IPV6 h \<longrightarrow>
      socks5_address_parse h (Some d) len (Some a)
        = Inr (False, Some (a\<lparr>addr_type := SOCKS5_ADDRTYPE_INVALID h\<rparr>)))"
  by (auto simp: socks5_address_parse_def rd_def parse_port_def and_then_eq_Inr Let_def
      split: if_splits)

theorem parse_failure_output_witness:
  "socks5_address_parse socks5_h (Some [1, 1, 2, 3]) 4 (Some blank_address)
     = Inr (False, Some blank_address)
   \<and> socks5_address_parse socks5_h (Some [5, 1, 2, 3, 4, 0, 80]) 7 (Some blank_address)
     = Inr (False, Some (blank_address\<lparr>addr_type := SOCKS5_ADDRTYPE_INVALID socks5_h\<rparr>))"
proof -
  have t: "socks5_address_parse socks5_h (Some [1, 1, 2, 3]) 4 (Some blank_address)
           = Inr (False, Some blank_address)"
    by (simp add: socks5_address_parse_def socks5_h_def rd_def sizeof_in_addr_def)
  have u: "[5, 1, 2, 3, 4, 0, 80] \<noteq> ([] :: byte list) \<and> (7::nat) \<noteq> 0
           \<and> uint ([5, 1, 2, 3, 4, 0, 80 :: byte] ! 0) \<noteq> SOCKS5_ADDRTYPE_IPV4 socks5_h
           \<and> uint ([5, 1, 2, 3, 4, 0, 80 :: byte] ! 0) \<noteq> SOCKS5_ADDRTYPE_DOMAINNAME socks5_h
           \<and> uint ([5, 1, 2, 3, 4, 0, 80 :: byte] ! 0) \<noteq> SOCKS5_ADDRTYPE_IPV6 socks5_h"
    by (simp add: socks5_h_def)
  from parse_failure_output [of socks5_h "[5, 1, 2, 3, 4, 0, 80]" 7 blank_address] u
  have "socks5_address_parse socks5_h (Some [5, 1, 2, 3, 4, 0, 80]) 7 (Some blank_address)
     = Inr (False, Some (blank_address\<lparr>addr_type := SOCKS5_ADDRTYPE_INVALID socks5_h\<rparr>))"
    by blast
  with t show ?thesis
    by (rule conjI)
qed

text \<open>
  C10. The guards at the head of the two functions. \<open>socks5_address_parse\<close> returns failure
  and leaves the output alone when \<open>data\<close> is null, \<open>len\<close> is 0 or \<open>addr\<close> is null, whatever
  the other arguments are: also on an empty buffer, where any read would be out of
  bounds. \<open>socks5_address_binary\<close> returns \<open>NULL\<close> and leaves the buffer alone when \<open>addr\<close>
  is null, \<open>buffer\<close> is null or \<open>size\<close> is 0.
\<close>

theorem codec_null_guards:
  "socks5_address_parse h None len addr_p = Inr (False, addr_p)
   \<and> socks5_address_parse h data 0 addr_p = Inr (False, addr_p)
   \<and> socks5_address_parse h data len None = Inr (False, None)
   \<and> socks5_address_binary h None buffer sz = Inr (False, buffer)
   \<and> socks5_address_binary h addr_p None sz = Inr (False, None)
   \<and> socks5_address_binary h addr_p buffer 0 = Inr (False, buffer)"
  by (simp add: socks5_address_parse_def socks5_address_binary_def split: option.splits)


section \<open>Properties of the tunnel\<close>

lemmas tunnel_prims =
  sock_def sock_update_def emit_def ASSERT_def tunnel_is_dead_def tunnel_add_ref_def
  socket_timer_start_def socket_timer_stop_def is_on_the_fly_def

lemma socket_close_live:
  assumes "rdstate (sock c t) \<noteq> socket_dead" and "wrstate (sock c t) \<noteq> socket_dead"
  shows "socket_close c t =
     Inr (sock_update c (\<lambda>s. s\<lparr>rdstate := socket_dead, wrstate := socket_dead\<rparr>)
           (t\<lparr>ref_count := ref_count t + 2,
              effects := effects t @ [Uv_close c Handle, Uv_close c Timer_handle]\<rparr>))"
  using assms by (cases c) (simp_all add: socket_close_def tunnel_prims)

lemma socket_close_dead:
  assumes "rdstate (sock c t) = socket_dead \<or> wrstate (sock c t) = socket_dead"
  shows "socket_close c t = Inl Assertion_failed"
  using assms by (auto simp: socket_close_def ASSERT_def)

lemma socket_close_Inr:
  assumes "socket_close c t = Inr t'"
  shows "rdstate (sock c t) \<noteq> socket_dead \<and> wrstate (sock c t) \<noteq> socket_dead"
  using assms socket_close_dead [of c t] by auto

lemma tunnel_shutdown_dead:
  "terminated t \<Longrightarrow> tunnel_shutdown t = Inr t"
  by (simp add: tunnel_shutdown_def tunnel_is_dead_def)

lemma tunnel_shutdown_live:
  assumes "\<not> terminated t"
    and "rdstate (incoming t) \<noteq> socket_dead" and "wrstate (incoming t) \<noteq> socket_dead"
    and "rdstate (outgoing t) \<noteq> socket_dead" and "wrstate (outgoing t) \<noteq> socket_dead"
  shows "tunnel_shutdown t =
     Inr (t\<lparr>incoming := (incoming t)\<lparr>rdstate := socket_dead, wrstate := socket_dead\<rparr>,
            outgoing := (outgoing t)\<lparr>rdstate := socket_dead, wrstate := socket_dead\<rparr>,
            ref_count := ref_count t + 4,
            terminated := True,
            effects := effects t @ shutdown_effects t\<rparr>)"
  using assms
  by (simp add: tunnel_shutdown_def socket_close_live shutdown_effects_def tunnel_prims)

lemma tunnel_shutdown_terminates:
  "tunnel_shutdown t = Inr t' \<Longrightarrow> terminated t'"
  by (auto simp: tunnel_shutdown_def tunnel_is_dead_def and_then_def
      split: if_splits sum.splits)


subsection \<open>The invariant\<close>

text \<open>
  Every operation and every completion keeps \<open>closed_only_after_shutdown\<close>: only
  \<open>socket_close\<close> sets \<open>socket_dead\<close>, and only \<open>tunnel_shutdown\<close>, which then sets
  \<open>terminated\<close>, calls it.
\<close>

lemma inv_new: "closed_only_after_shutdown (install_hooks fly (new_tunnel timeout))"
  by (simp add: closed_only_after_shutdown_def install_hooks_def new_tunnel_def new_socket_def)

lemma inv_emit [simp]: "closed_only_after_shutdown (emit e t) = closed_only_after_shutdown t"
  by (simp add: closed_only_after_shutdown_def emit_def)

lemma inv_result [simp]:
  "closed_only_after_shutdown (sock_update c (\<lambda>s. s\<lparr>result := r\<rparr>) t) = closed_only_after_shutdown t"
  by (cases c) (simp_all add: closed_only_after_shutdown_def sock_update_def)

lemma inv_shutdown:
  "tunnel_shutdown t = Inr t' \<Longrightarrow> closed_only_after_shutdown t'"
  by (simp add: closed_only_after_shutdown_def tunnel_shutdown_terminates)

lemma inv_is_on_the_fly:
  "is_on_the_fly t = Inr (fly, t') \<Longrightarrow> t' = emit Call_tunnel_is_on_the_fly t"
  by (auto simp: is_on_the_fly_def split: option.splits)

lemma inv_read:
  "closed_only_after_shutdown t \<Longrightarrow> socket_read c t = Inr t' \<Longrightarrow> closed_only_after_shutdown t'"
  by (cases c) (auto simp: socket_read_def closed_only_after_shutdown_def tunnel_prims split: if_splits)

lemma inv_read_stop:
  "closed_only_after_shutdown t \<Longrightarrow> closed_only_after_shutdown (socket_read_stop c t)"
  by (cases c) (auto simp: socket_read_stop_def closed_only_after_shutdown_def tunnel_prims)

lemma inv_write:
  "closed_only_after_shutdown t \<Longrightarrow> socket_write c len t = Inr t' \<Longrightarrow> closed_only_after_shutdown t'"
  by (cases c) (auto simp: socket_write_def closed_only_after_shutdown_def tunnel_prims
      split: if_splits option.splits)

lemma inv_connect:
  "closed_only_after_shutdown t \<Longrightarrow> socket_connect r c t = Inr (r', t') \<Longrightarrow>
   closed_only_after_shutdown t'"
  by (auto simp: socket_connect_def ASSERT_def socket_timer_start_def split: if_splits)

lemma inv_getaddrinfo:
  "closed_only_after_shutdown t \<Longrightarrow> closed_only_after_shutdown (socket_getaddrinfo c hostname t)"
  by (simp add: socket_getaddrinfo_def closed_only_after_shutdown_def tunnel_prims Let_def)

lemma inv_release:
  "closed_only_after_shutdown t \<Longrightarrow> closed_only_after_shutdown (socket_close_done_cb h t)"
  by (auto simp: socket_close_done_cb_def tunnel_release_def closed_only_after_shutdown_def emit_def Let_def)

lemma inv_connect_done:
  "closed_only_after_shutdown t \<Longrightarrow> socket_connect_done_cb c status t = Inr t' \<Longrightarrow>
   closed_only_after_shutdown t'"
  by (auto simp: socket_connect_done_cb_def Let_def ASSERT_def socket_timer_stop_def
      split: if_splits dest: inv_shutdown)

lemma inv_read_done:
  "closed_only_after_shutdown t \<Longrightarrow> socket_read_done_cb c nread b t = Inr t' \<Longrightarrow>
   closed_only_after_shutdown t'"
  by (cases c)
     (auto simp: socket_read_done_cb_def Let_def ASSERT_def tunnel_prims and_then_eq_Inr
        closed_only_after_shutdown_def
      split: if_splits option.splits dest!: tunnel_shutdown_terminates)

lemma inv_write_done:
  "closed_only_after_shutdown t \<Longrightarrow> socket_write_done_cb c status t = Inr t' \<Longrightarrow>
   closed_only_after_shutdown t'"
  by (cases c)
     (auto simp: socket_write_done_cb_def Let_def ASSERT_def tunnel_prims and_then_eq_Inr
        closed_only_after_shutdown_def
      split: if_splits option.splits dest!: tunnel_shutdown_terminates)

lemma inv_getaddrinfo_done:
  "closed_only_after_shutdown t \<Longrightarrow> socket_getaddrinfo_done_cb c status ai t = Inr t' \<Longrightarrow>
   closed_only_after_shutdown t'"
  by (cases c)
     (auto simp: socket_getaddrinfo_done_cb_def Let_def ASSERT_def tunnel_prims and_then_eq_Inr
        closed_only_after_shutdown_def
      split: if_splits option.splits)


subsection \<open>Reference count\<close>

lemma tunnel_release_more:
  "ref_count t \<noteq> 1 \<Longrightarrow> tunnel_release t = t\<lparr>ref_count := ref_count t - 1\<rparr>"
  by (simp add: tunnel_release_def Let_def)

lemma tunnel_release_last:
  "ref_count t = 1 \<Longrightarrow>
   tunnel_release t = t\<lparr>ref_count := 0, effects := effects t @ destroy_effects t\<rparr>"
  by (simp add: tunnel_release_def Let_def emit_def destroy_effects_def)

lemma close_completions_before_last:
  "int (length hs) < ref_count t \<Longrightarrow>
   close_completions hs t = t\<lparr>ref_count := ref_count t - int (length hs)\<rparr>"
proof (induction hs arbitrary: t)
  case Nil
  then show ?case by (simp add: close_completions_def)
next
  case (Cons h hs)
  have r: "tunnel_release t = t\<lparr>ref_count := ref_count t - 1\<rparr>"
    using Cons.prems by (intro tunnel_release_more) simp
  have "close_completions hs (tunnel_release t)
        = (tunnel_release t)\<lparr>ref_count := ref_count (tunnel_release t) - int (length hs)\<rparr>"
    using Cons.prems by (intro Cons.IH) (simp add: r)
  then show ?case
    by (simp add: close_completions_def socket_close_done_cb_def r)
qed

lemma close_completions_all:
  assumes "ref_count t = int (length hs)" and "hs \<noteq> []"
  shows "close_completions hs t = t\<lparr>ref_count := 0, effects := effects t @ destroy_effects t\<rparr>"
proof -
  obtain hs' h where hs: "hs = hs' @ [h]"
    using assms(2) by (meson rev_exhaust)
  have b: "close_completions hs' t = t\<lparr>ref_count := 1\<rparr>"
    using close_completions_before_last [of hs' t] assms(1) hs by simp
  have "close_completions hs t = tunnel_release (close_completions hs' t)"
    by (simp add: hs close_completions_def socket_close_done_cb_def)
  then show ?thesis
    by (simp add: b tunnel_release_last destroy_effects_def)
qed

lemma live_tunnel_fields:
  "\<not> terminated live_tunnel"
  "rdstate (incoming live_tunnel) = socket_stop" "wrstate (incoming live_tunnel) = socket_stop"
  "rdstate (outgoing live_tunnel) = socket_stop" "wrstate (outgoing live_tunnel) = socket_stop"
  "result (outgoing live_tunnel) = 0"
  "tunnel_outgoing_connected_done live_tunnel" "tunnel_is_on_the_fly live_tunnel = Some False"
  "tunnel_dying live_tunnel"
  "getaddrinfo_pending live_tunnel = False" "ref_count live_tunnel = 0"
  by (simp_all add: live_tunnel_def install_hooks_def new_tunnel_def new_socket_def)

lemma shut_tunnel_eq:
  "tunnel_shutdown live_tunnel = Inr shut_tunnel"
proof -
  have "\<exists>t'. tunnel_shutdown live_tunnel = Inr t'"
    by (simp add: tunnel_shutdown_live live_tunnel_fields)
  then show ?thesis
    by (auto simp: shut_tunnel_def)
qed

lemma shut_tunnel_unfold:
  "shut_tunnel =
     live_tunnel\<lparr>incoming := (incoming live_tunnel)\<lparr>rdstate := socket_dead, wrstate := socket_dead\<rparr>,
       outgoing := (outgoing live_tunnel)\<lparr>rdstate := socket_dead, wrstate := socket_dead\<rparr>,
       ref_count := 4, terminated := True,
       effects := effects live_tunnel @ shutdown_effects live_tunnel\<rparr>"
  using shut_tunnel_eq by (simp add: tunnel_shutdown_live live_tunnel_fields)

lemma shut_tunnel_terminated: "terminated shut_tunnel"
  by (simp add: shut_tunnel_unfold)

lemma shut_tunnel_fields:
  "rdstate (incoming shut_tunnel) = socket_dead" "wrstate (incoming shut_tunnel) = socket_dead"
  "rdstate (outgoing shut_tunnel) = socket_dead" "wrstate (outgoing shut_tunnel) = socket_dead"
  "result (outgoing shut_tunnel) = 0" "ref_count shut_tunnel = 4"
  "tunnel_dying shut_tunnel" "tunnel_is_on_the_fly shut_tunnel = Some False"
  by (simp_all add: shut_tunnel_unfold live_tunnel_fields)


text \<open>
  C4. \<open>socket_close\<close> raises the reference count by two and asks libuv for two closes,
  of the socket handle and of the timer, each after its own increment. Each close
  completion lowers the count by one. With \<open>N\<close> completions outstanding (the count is the
  length of \<open>hs\<close>) delivered in any order \<open>hs\<close>: after any \<open>k < N\<close> of them nothing but the
  count has changed, so nothing is destroyed; after all \<open>N\<close> the count is zero and the
  tunnel has been destroyed once, \<open>tunnel_dying\<close> called once if set, then the two
  buffers, the two sockets and the tunnel freed. The count is an unbounded integer here;
  \<open>tunnel.c\<close> never raises it above four.
\<close>

theorem close_reference_count:
  "(socket_close c t = Inr t' \<longrightarrow>
      ref_count t' = ref_count t + 2
      \<and> effects t' = effects t @ [Uv_close c Handle, Uv_close c Timer_handle])
   \<and> ref_count (socket_close_done_cb h t) = ref_count t - 1
   \<and> (ref_count t = int (length hs) \<and> k < length hs \<longrightarrow>
        close_completions (take k hs) t = t\<lparr>ref_count := ref_count t - int k\<rparr>)
   \<and> (ref_count t = int (length hs) \<and> hs \<noteq> [] \<longrightarrow>
        close_completions hs t
          = t\<lparr>ref_count := 0, effects := effects t @ destroy_effects t\<rparr>
        \<and> count_list (destroy_effects t) Free_tunnel = 1
        \<and> count_list (destroy_effects t) Call_tunnel_dying = (if tunnel_dying t then 1 else 0))"
proof -
  have a: "socket_close c t = Inr t' \<longrightarrow>
      ref_count t' = ref_count t + 2
      \<and> effects t' = effects t @ [Uv_close c Handle, Uv_close c Timer_handle]"
  proof
    assume s: "socket_close c t = Inr t'"
    from socket_close_Inr [OF s] socket_close_live [of c t] s
    show "ref_count t' = ref_count t + 2
      \<and> effects t' = effects t @ [Uv_close c Handle, Uv_close c Timer_handle]"
      by (cases c) (auto simp: sock_update_def)
  qed
  have b: "ref_count (socket_close_done_cb h t) = ref_count t - 1"
    by (simp add: socket_close_done_cb_def tunnel_release_def Let_def emit_def)
  have c: "ref_count t = int (length hs) \<and> k < length hs \<longrightarrow>
        close_completions (take k hs) t = t\<lparr>ref_count := ref_count t - int k\<rparr>"
    using close_completions_before_last [of "take k hs" t] by auto
  have d: "ref_count t = int (length hs) \<and> hs \<noteq> [] \<longrightarrow>
        close_completions hs t
          = t\<lparr>ref_count := 0, effects := effects t @ destroy_effects t\<rparr>"
    using close_completions_all [of t hs] by blast
  have e: "count_list (destroy_effects t) Free_tunnel = 1
        \<and> count_list (destroy_effects t) Call_tunnel_dying = (if tunnel_dying t then 1 else 0)"
    by (simp add: destroy_effects_def)
  from a b c d e show ?thesis by blast
qed



theorem close_reference_count_witness:
  "ref_count shut_tunnel = int (length [(Outgoing, Timer_handle), (Incoming, Handle),
       (Outgoing, Handle), (Incoming, Timer_handle)])
   \<and> close_completions (take 3 [(Outgoing, Timer_handle), (Incoming, Handle),
       (Outgoing, Handle), (Incoming, Timer_handle)]) shut_tunnel
      = shut_tunnel\<lparr>ref_count := ref_count shut_tunnel - int 3\<rparr>
   \<and> close_completions [(Outgoing, Timer_handle), (Incoming, Handle),
       (Outgoing, Handle), (Incoming, Timer_handle)] shut_tunnel
      = shut_tunnel\<lparr>ref_count := 0,
          effects := effects shut_tunnel @ destroy_effects shut_tunnel\<rparr>
   \<and> (\<exists>t'. socket_close Incoming live_tunnel = Inr t'
          \<and> ref_count t' = ref_count live_tunnel + 2
          \<and> effects t' = effects live_tunnel
              @ [Uv_close Incoming Handle, Uv_close Incoming Timer_handle])"
proof -
  let ?hs = "[(Outgoing, Timer_handle), (Incoming, Handle), (Outgoing, Handle),
              (Incoming, Timer_handle)]"
  have n: "ref_count shut_tunnel = int (length ?hs)"
    by (simp add: shut_tunnel_fields)
  have k: "(3::nat) < length ?hs" and ne: "?hs \<noteq> []"
    by simp_all
  obtain t' where s: "socket_close Incoming live_tunnel = Inr t'"
    by (simp add: socket_close_live sock_def live_tunnel_fields)
  from close_reference_count [of Incoming live_tunnel t' "(Incoming, Handle)" ?hs 3] s
  have a: "ref_count t' = ref_count live_tunnel + 2
          \<and> effects t' = effects live_tunnel
              @ [Uv_close Incoming Handle, Uv_close Incoming Timer_handle]"
    by blast
  from close_reference_count [of Incoming shut_tunnel t' "(Incoming, Handle)" ?hs 3] n k ne
  have b: "close_completions (take 3 ?hs) shut_tunnel
      = shut_tunnel\<lparr>ref_count := ref_count shut_tunnel - int 3\<rparr>
    \<and> close_completions ?hs shut_tunnel
      = shut_tunnel\<lparr>ref_count := 0,
          effects := effects shut_tunnel @ destroy_effects shut_tunnel\<rparr>"
    by blast
  from n a b s show ?thesis
    by blast
qed


subsection \<open>Shutdown and late completions\<close>

text \<open>
  C5. \<open>tunnel_shutdown\<close> on a terminated tunnel returns the tunnel as it is: no field, no
  socket state, no reference count changes and nothing is requested or freed (the list
  of effects is the same). So does any number of further calls.
\<close>

theorem shutdown_idempotent:
  assumes "terminated t"
  shows "tunnel_shutdown t = Inr t \<and> shutdown_again n t = Inr t"
proof -
  have s: "tunnel_shutdown t = Inr t"
    using assms by (rule tunnel_shutdown_dead)
  have "shutdown_again n t = Inr t"
    by (induction n) (simp_all add: shutdown_again_def s)
  with s show ?thesis
    by simp
qed

theorem shutdown_idempotent_witness:
  "tunnel_shutdown live_tunnel = Inr shut_tunnel \<and> terminated shut_tunnel
   \<and> tunnel_shutdown shut_tunnel = Inr shut_tunnel
   \<and> shutdown_again 3 shut_tunnel = Inr shut_tunnel"
  using shutdown_idempotent [OF shut_tunnel_terminated, of 3] shut_tunnel_eq
    shut_tunnel_terminated
  by blast


text \<open>
  C6, as stated, fails: the connect completion on a terminated tunnel stores its status
  on the socket before it looks at \<open>terminated\<close>. Here the outgoing socket's result is 0
  before and \<open>UV_ECANCELED\<close> after.
\<close>

theorem completions_after_shutdown_counterexample:
  "terminated shut_tunnel \<and> result (outgoing shut_tunnel) = 0
   \<and> socket_connect_done_cb Outgoing UV_ECANCELED shut_tunnel
       = Inr (shut_tunnel\<lparr>outgoing := (outgoing shut_tunnel)\<lparr>result := - 125\<rparr>\<rparr>)"
  using shut_tunnel_terminated
  by (simp add: shut_tunnel_fields socket_connect_done_cb_def sock_update_def
        tunnel_is_dead_def UV_ECANCELED_def)


text \<open>
  C6, amended. On a terminated tunnel no completion calls a hook, asks anything of
  libuv, or changes a read or write state, the reference count or \<open>terminated\<close>. The read
  completion changes nothing. The write completion frees its write request and changes
  nothing else. The connect, resolve and timer-expiry completions store their result
  code in the socket's \<open>result\<close> before the check and change nothing else, but that the
  resolve completion also clears \<open>getaddrinfo_pending\<close>.
\<close>

theorem completions_after_shutdown:
  assumes "terminated t"
  shows "socket_read_done_cb c nread buf_is_ours t = Inr t
    \<and> socket_write_done_cb c status t = Inr (t\<lparr>effects := effects t @ [Free_write_req]\<rparr>)
    \<and> socket_connect_done_cb c status t = Inr (sock_update c (\<lambda>s. s\<lparr>result := status\<rparr>) t)
    \<and> socket_getaddrinfo_done_cb c status ai t
        = Inr ((sock_update c (\<lambda>s. s\<lparr>result := status\<rparr>) t)\<lparr>getaddrinfo_pending := False\<rparr>)
    \<and> socket_timer_expire_cb hook c t
        = Inr (sock_update c (\<lambda>s. s\<lparr>result := UV_ETIMEDOUT\<rparr>) t)"
proof -
  have d: "terminated (sock_update c f t)" for f
    using assms by (cases c) (simp_all add: sock_update_def)
  show ?thesis
    using assms d
    by (simp add: socket_read_done_cb_def socket_write_done_cb_def socket_connect_done_cb_def
          socket_getaddrinfo_done_cb_def socket_timer_expire_cb_def tunnel_is_dead_def
          emit_def Let_def)
qed

theorem completions_after_shutdown_witness:
  "terminated shut_tunnel
   \<and> socket_read_done_cb Incoming 512 True shut_tunnel = Inr shut_tunnel
   \<and> socket_write_done_cb Incoming 0 shut_tunnel
       = Inr (shut_tunnel\<lparr>effects := effects shut_tunnel @ [Free_write_req]\<rparr>)
   \<and> socket_timer_expire_cb Inr Incoming shut_tunnel
       = Inr (sock_update Incoming (\<lambda>s. s\<lparr>result := UV_ETIMEDOUT\<rparr>) shut_tunnel)"
  using completions_after_shutdown [OF shut_tunnel_terminated, of Incoming 512 True 0]
    shut_tunnel_terminated
  by blast



subsection \<open>Connect completion\<close>

text \<open>
  C7. On a live tunnel (not terminated, in a state that satisfies the invariant, with
  the required hook \<open>tunnel_outgoing_connected_done\<close> set) the connect completion records
  the status on the socket and stops the idle timer. On \<open>UV_ECANCELED\<close> or
  \<open>UV_ECONNREFUSED\<close> it then shuts the tunnel down: the tunnel is terminated, all four
  states are \<open>socket_dead\<close>, and after the timer stop the only effects are those of
  \<open>tunnel_shutdown\<close>, so the hook is not called. On every other status the tunnel stays
  live and the hook is called, last, with the status in the socket's \<open>result\<close>.
\<close>

theorem connect_completion_policy:
  assumes "\<not> terminated t" and "closed_only_after_shutdown t"
    and "tunnel_outgoing_connected_done t"
  shows "(status = UV_ECANCELED \<or> status = UV_ECONNREFUSED \<longrightarrow>
           (\<exists>t'. socket_connect_done_cb c status t = Inr t'
              \<and> terminated t'
              \<and> rdstate (incoming t') = socket_dead \<and> wrstate (incoming t') = socket_dead
              \<and> rdstate (outgoing t') = socket_dead \<and> wrstate (outgoing t') = socket_dead
              \<and> result (sock c t') = status
              \<and> effects t' = effects t @ [Uv_timer_stop c] @ shutdown_effects t))
    \<and> (status \<noteq> UV_ECANCELED \<and> status \<noteq> UV_ECONNREFUSED \<longrightarrow>
           socket_connect_done_cb c status t
             = Inr ((sock_update c (\<lambda>s. s\<lparr>result := status\<rparr>) t)
                     \<lparr>effects := effects t
                        @ [Uv_timer_stop c, Call_tunnel_outgoing_connected_done c]\<rparr>))"
proof -
  let ?t2 = "socket_timer_stop c (sock_update c (\<lambda>s. s\<lparr>result := status\<rparr>) t)"
  have live: "\<not> terminated ?t2"
    "rdstate (incoming ?t2) \<noteq> socket_dead" "wrstate (incoming ?t2) \<noteq> socket_dead"
    "rdstate (outgoing ?t2) \<noteq> socket_dead" "wrstate (outgoing ?t2) \<noteq> socket_dead"
    "tunnel_outgoing_connected_done ?t2"
    "\<not> terminated (sock_update c (\<lambda>s. s\<lparr>result := status\<rparr>) t)"
    using assms by (cases c; simp add: tunnel_prims closed_only_after_shutdown_def)+
  have f: "result (sock c ?t2) = status" "effects ?t2 = effects t @ [Uv_timer_stop c]"
    "shutdown_effects ?t2 = shutdown_effects t"
    by (cases c; simp add: tunnel_prims shutdown_effects_def)+
  have cb: "socket_connect_done_cb c status t =
      (if status = UV_ECANCELED \<or> status = UV_ECONNREFUSED then tunnel_shutdown ?t2
       else Inr (emit (Call_tunnel_outgoing_connected_done c) ?t2))"
    using live by (simp add: socket_connect_done_cb_def tunnel_is_dead_def ASSERT_def Let_def)
  have a: "status = UV_ECANCELED \<or> status = UV_ECONNREFUSED \<longrightarrow>
           (\<exists>t'. socket_connect_done_cb c status t = Inr t'
              \<and> terminated t'
              \<and> rdstate (incoming t') = socket_dead \<and> wrstate (incoming t') = socket_dead
              \<and> rdstate (outgoing t') = socket_dead \<and> wrstate (outgoing t') = socket_dead
              \<and> result (sock c t') = status
              \<and> effects t' = effects t @ [Uv_timer_stop c] @ shutdown_effects t)"
  proof
    assume st: "status = UV_ECANCELED \<or> status = UV_ECONNREFUSED"
    let ?t' = "?t2\<lparr>incoming := (incoming ?t2)\<lparr>rdstate := socket_dead, wrstate := socket_dead\<rparr>,
            outgoing := (outgoing ?t2)\<lparr>rdstate := socket_dead, wrstate := socket_dead\<rparr>,
            ref_count := ref_count ?t2 + 4,
            terminated := True,
            effects := effects ?t2 @ shutdown_effects ?t2\<rparr>"
    have e: "socket_connect_done_cb c status t = Inr ?t'"
      using st by (simp only: cb if_True tunnel_shutdown_live [OF live(1-5)])
    have p: "terminated ?t'
        \<and> rdstate (incoming ?t') = socket_dead \<and> wrstate (incoming ?t') = socket_dead
        \<and> rdstate (outgoing ?t') = socket_dead \<and> wrstate (outgoing ?t') = socket_dead
        \<and> effects ?t' = effects t @ [Uv_timer_stop c] @ shutdown_effects t"
      by (simp add: f)
    have q: "result (sock c ?t') = status"
      using f(1) by (cases c; simp add: sock_def)
    from e p q
    show "\<exists>t'. socket_connect_done_cb c status t = Inr t'
              \<and> terminated t'
              \<and> rdstate (incoming t') = socket_dead \<and> wrstate (incoming t') = socket_dead
              \<and> rdstate (outgoing t') = socket_dead \<and> wrstate (outgoing t') = socket_dead
              \<and> result (sock c t') = status
              \<and> effects t' = effects t @ [Uv_timer_stop c] @ shutdown_effects t"
      by blast
  qed
  have b: "status \<noteq> UV_ECANCELED \<and> status \<noteq> UV_ECONNREFUSED \<longrightarrow>
           socket_connect_done_cb c status t
             = Inr ((sock_update c (\<lambda>s. s\<lparr>result := status\<rparr>) t)
                     \<lparr>effects := effects t
                        @ [Uv_timer_stop c, Call_tunnel_outgoing_connected_done c]\<rparr>)"
  proof
    assume ns: "status \<noteq> UV_ECANCELED \<and> status \<noteq> UV_ECONNREFUSED"
    have "socket_connect_done_cb c status t
          = Inr (emit (Call_tunnel_outgoing_connected_done c) ?t2)"
      using ns by (simp add: cb)
    also have "emit (Call_tunnel_outgoing_connected_done c) ?t2
          = (sock_update c (\<lambda>s. s\<lparr>result := status\<rparr>) t)
              \<lparr>effects := effects t
                 @ [Uv_timer_stop c, Call_tunnel_outgoing_connected_done c]\<rparr>"
      by (cases c; simp add: tunnel_prims)
    finally show "socket_connect_done_cb c status t
             = Inr ((sock_update c (\<lambda>s. s\<lparr>result := status\<rparr>) t)
                     \<lparr>effects := effects t
                        @ [Uv_timer_stop c, Call_tunnel_outgoing_connected_done c]\<rparr>)" .
  qed
  from a b show ?thesis ..
qed

theorem connect_completion_policy_witness:
  "(\<exists>t'. socket_connect_done_cb Outgoing UV_ECONNREFUSED live_tunnel = Inr t'
        \<and> terminated t'
        \<and> result (sock Outgoing t') = UV_ECONNREFUSED
        \<and> effects t' = effects live_tunnel @ [Uv_timer_stop Outgoing]
            @ shutdown_effects live_tunnel)
   \<and> socket_connect_done_cb Outgoing 0 live_tunnel
       = Inr ((sock_update Outgoing (\<lambda>s. s\<lparr>result := 0\<rparr>) live_tunnel)
               \<lparr>effects := effects live_tunnel
                  @ [Uv_timer_stop Outgoing, Call_tunnel_outgoing_connected_done Outgoing]\<rparr>)"
proof -
  have l: "\<not> terminated live_tunnel" "closed_only_after_shutdown live_tunnel"
    "tunnel_outgoing_connected_done live_tunnel"
    by (simp_all add: live_tunnel_fields closed_only_after_shutdown_def)
  have z: "(0::int) \<noteq> UV_ECANCELED \<and> 0 \<noteq> UV_ECONNREFUSED"
    by (simp add: UV_ECANCELED_def UV_ECONNREFUSED_def)
  from connect_completion_policy [OF l, of UV_ECONNREFUSED Outgoing]
    connect_completion_policy [OF l, of 0 Outgoing] z
  show ?thesis by blast
qed

subsection \<open>Zero-length read\<close>




subsection \<open>The socket states\<close>











end
